theory Spec2Isabelle
  imports Complex_Main "HOL-Library.Log_Nat"
begin

section \<open>Service worker (service-worker.js)\<close>

subsection \<open>Host objects: requests, responses, the network and CacheStorage\<close>

text \<open>
  A rejected promise is a value \<open>Inl e\<close>, a fulfilled one \<open>Inr v\<close>. The handlers of the
  service worker are promise chains without shared mutable variables, so each handler is
  a function from the host state it reads (the network, the CacheStorage) to the value
  its promise settles with and the CacheStorage it leaves behind.
\<close>

datatype js_error = Error string | TypeError string

record response =
  status :: nat
  body :: string

text \<open>
  A request carries its URL; \<open>origin\<close> stands for \<^verbatim>\<open>new URL(request.url).origin\<close>.
\<close>

record request =
  url :: string
  origin :: string

text \<open>
  \<^verbatim>\<open>fetch\<close> either rejects (network failure) or resolves with a response of any status.
\<close>

type_synonym network = "string \<Rightarrow> js_error + response"

text \<open>
  One cache maps request URLs to responses. CacheStorage is the list of named caches in
  creation order, the order in which \<^verbatim>\<open>caches.keys()\<close> enumerates and
  \<^verbatim>\<open>caches.match\<close> searches them.
\<close>

type_synonym cache = "string \<rightharpoonup> response"

type_synonym cache_storage = "(string \<times> cache) list"

definition CACHE_NAME :: string where
  "CACHE_NAME = ''digit-recognition-v1''"

definition STATIC_CACHE_FILES :: "string list" where
  "STATIC_CACHE_FILES =
     [''./index.html'', ''./manifest.json'', ''./css/styles.css'', ''./js/app.js'',
      ''./js/canvas.js'', ''./js/model.js'', ''./js/ui.js'', ''./js/stats.js'']"

definition CDN_CACHE_FILES :: "string list" where
  "CDN_CACHE_FILES =
     [''https://cdn.jsdelivr.net/npm/fabric@5.3.0/dist/fabric.min.js'',
      ''https://cdn.jsdelivr.net/npm/@tensorflow/tfjs@4.11.0/dist/tf.min.js'']"

definition caches_keys :: "cache_storage \<Rightarrow> string list" where
  "caches_keys st = map fst st"

text \<open>\<^verbatim>\<open>caches.open(name)\<close> creates an empty cache when none of that name exists.\<close>

fun caches_open :: "string \<Rightarrow> cache_storage \<Rightarrow> cache_storage" where
  "caches_open name [] = [(name, Map.empty)]"
| "caches_open name ((n, c) # st) =
     (if n = name then (n, c) # st else (n, c) # caches_open name st)"

fun caches_delete :: "string \<Rightarrow> cache_storage \<Rightarrow> cache_storage" where
  "caches_delete name [] = []"
| "caches_delete name ((n, c) # st) =
     (if n = name then caches_delete name st else (n, c) # caches_delete name st)"

text \<open>\<^verbatim>\<open>caches.match(request)\<close>: the first cache, in creation order, that holds the URL.\<close>

fun caches_match :: "cache_storage \<Rightarrow> string \<Rightarrow> response option" where
  "caches_match [] u = None"
| "caches_match ((n, c) # st) u =
     (case c u of Some r \<Rightarrow> Some r | None \<Rightarrow> caches_match st u)"

text \<open>
  \<^verbatim>\<open>cache.put(request, response)\<close> on the cache called \<open>name\<close>; it overwrites. A
  request is identified by its URL, as for a GET request; the host rejects a
  \<^verbatim>\<open>put\<close> for any other method and stores nothing, so the model stores at least what
  the host stores.
\<close>

fun cache_put :: "string \<Rightarrow> string \<Rightarrow> response \<Rightarrow> cache_storage \<Rightarrow> cache_storage" where
  "cache_put name u r [] = []"
| "cache_put name u r ((n, c) # st) =
     (if n = name then (n, c(u \<mapsto> r)) # st else (n, c) # cache_put name u r st)"

text \<open>
  \<^verbatim>\<open>caches.open(CACHE_NAME).then((cache) => { cache.put(request, responseClone); })\<close>
\<close>

definition open_then_put :: "string \<Rightarrow> string \<Rightarrow> response \<Rightarrow> cache_storage \<Rightarrow> cache_storage" where
  "open_then_put name u r st = cache_put name u r (caches_open name st)"

text \<open>
  \<^verbatim>\<open>response.ok\<close>: a status in the range 200..299.
\<close>

definition ok :: "response \<Rightarrow> bool" where
  "ok r = (200 \<le> status r \<and> status r \<le> 299)"

text \<open>
  \<^verbatim>\<open>cache.addAll(urls)\<close> and \<^verbatim>\<open>cache.add(url)\<close> are host functions. As the Cache
  interface defines them, every URL is fetched; when a fetch rejects, or a response is
  not \<open>ok\<close> or has status 206, the promise rejects with a TypeError and nothing is
  stored; otherwise every fetched response is put into the cache. The host resolves a
  relative URL such as \<^verbatim>\<open>./js/ui.js\<close> against the worker's location before it fetches
  and stores; here the network and the cache are keyed by the string as written, so a
  \<open>network\<close> given to \<open>install\<close> answers for the strings of the two file lists.
\<close>

definition addable :: "network \<Rightarrow> string \<Rightarrow> bool" where
  "addable net u =
     (case net u of Inl e \<Rightarrow> False | Inr r \<Rightarrow> ok r \<and> status r \<noteq> 206)"

fun fetch_all :: "network \<Rightarrow> string list \<Rightarrow> js_error + (string \<times> response) list" where
  "fetch_all net [] = Inr []"
| "fetch_all net (u # us) =
     (case net u of
        Inl e \<Rightarrow> Inl (TypeError ''Failed to fetch'')
      | Inr r \<Rightarrow>
          if ok r \<and> status r \<noteq> 206 then
            (case fetch_all net us of
               Inl e \<Rightarrow> Inl e
             | Inr rs \<Rightarrow> Inr ((u, r) # rs))
          else Inl (TypeError ''Request failed''))"

fun put_all :: "string \<Rightarrow> (string \<times> response) list \<Rightarrow> cache_storage \<Rightarrow> cache_storage" where
  "put_all name [] st = st"
| "put_all name ((u, r) # rs) st = put_all name rs (cache_put name u r st)"

definition cache_addAll ::
  "network \<Rightarrow> string \<Rightarrow> string list \<Rightarrow> cache_storage \<Rightarrow> (js_error + unit) \<times> cache_storage" where
  "cache_addAll net name urls st =
     (case fetch_all net urls of
        Inl e \<Rightarrow> (Inl e, st)
      | Inr rs \<Rightarrow> (Inr (), put_all name rs st))"

definition cache_add ::
  "network \<Rightarrow> string \<Rightarrow> string \<Rightarrow> cache_storage \<Rightarrow> (js_error + unit) \<times> cache_storage" where
  "cache_add net name u st = cache_addAll net name [u] st"

subsection \<open>The install handler\<close>

text \<open>
  \<^verbatim>\<open>cache.add(url).catch(err => { console.log('Failed to cache:', url, err); })\<close>:
  the rejection is logged and the promise fulfils. \<^verbatim>\<open>Promise.allSettled\<close> over the CDN
  files never rejects; the adds touch different URLs, so their order does not matter.
\<close>

definition add_swallowed :: "network \<Rightarrow> string \<Rightarrow> string \<Rightarrow> cache_storage \<Rightarrow> cache_storage" where
  "add_swallowed net name u st = snd (cache_add net name u st)"

definition add_cdn_files :: "network \<Rightarrow> cache_storage \<Rightarrow> cache_storage" where
  "add_cdn_files net st = fold (add_swallowed net CACHE_NAME) CDN_CACHE_FILES st"

text \<open>
  The promise handed to \<^verbatim>\<open>event.waitUntil\<close>: when it rejects the installation fails,
  when it fulfils (after \<^verbatim>\<open>self.skipWaiting()\<close>) the worker is installed.
\<close>

definition install :: "network \<Rightarrow> cache_storage \<Rightarrow> (js_error + unit) \<times> cache_storage" where
  "install net st =
     (case cache_addAll net CACHE_NAME STATIC_CACHE_FILES (caches_open CACHE_NAME st) of
        (Inl e, st1) \<Rightarrow> (Inl e, st1)
      | (Inr _, st1) \<Rightarrow> (Inr (), add_cdn_files net (caches_open CACHE_NAME st1)))"

subsection \<open>The activate handler\<close>

text \<open>
  \<^verbatim>\<open>cacheNames.map((cache) => { if (cache !== CACHE_NAME) return caches.delete(cache); })\<close>
  over the names \<^verbatim>\<open>caches.keys()\<close> returned.
\<close>

definition delete_old :: "string \<Rightarrow> cache_storage \<Rightarrow> cache_storage" where
  "delete_old cache st = (if cache \<noteq> CACHE_NAME then caches_delete cache st else st)"

definition activate :: "cache_storage \<Rightarrow> cache_storage" where
  "activate st = fold delete_old (caches_keys st) st"

subsection \<open>The fetch handler\<close>

text \<open>
  What one run of the handler does: the value the promise given to
  \<^verbatim>\<open>event.respondWith\<close> settles with, the CacheStorage once the detached
  \<^verbatim>\<open>cache.put\<close> has run, and the URLs passed to \<^verbatim>\<open>fetch\<close>.
\<close>

record fetch_outcome =
  responded :: "js_error + response"
  storage :: cache_storage
  fetched :: "string list"

text \<open>
  \<^verbatim>\<open>if (response && response.status === 200)\<close>: a response object is always truthy.
\<close>

definition cache_successful :: "string \<Rightarrow> response \<Rightarrow> cache_storage \<Rightarrow> cache_storage" where
  "cache_successful u r st =
     (if status r = 200 then open_then_put CACHE_NAME u r st else st)"

definition cache_first :: "network \<Rightarrow> cache_storage \<Rightarrow> request \<Rightarrow> fetch_outcome" where
  "cache_first net st req =
     (case caches_match st (url req) of
        Some cached \<Rightarrow> \<lparr>responded = Inr cached, storage = st, fetched = []\<rparr>
      | None \<Rightarrow>
          (case net (url req) of
             Inr r \<Rightarrow>
               \<lparr>responded = Inr r, storage = cache_successful (url req) r st,
                fetched = [url req]\<rparr>
           | Inl error \<Rightarrow>
               \<lparr>responded = Inl error, storage = st, fetched = [url req]\<rparr>))"

definition network_first :: "network \<Rightarrow> cache_storage \<Rightarrow> request \<Rightarrow> fetch_outcome" where
  "network_first net st req =
     (case net (url req) of
        Inr r \<Rightarrow>
          \<lparr>responded = Inr r, storage = cache_successful (url req) r st,
           fetched = [url req]\<rparr>
      | Inl error \<Rightarrow>
          (case caches_match st (url req) of
             Some cached \<Rightarrow>
               \<lparr>responded = Inr cached, storage = st, fetched = [url req]\<rparr>
           | None \<Rightarrow>
               \<lparr>responded = Inl (Error ''No cached version available''), storage = st,
                fetched = [url req]\<rparr>))"

definition fetch_handler ::
  "string \<Rightarrow> network \<Rightarrow> cache_storage \<Rightarrow> request \<Rightarrow> fetch_outcome" where
  "fetch_handler location_origin net st req =
     (if origin req \<noteq> location_origin then cache_first net st req
      else network_first net st req)"

subsection \<open>Observing the CacheStorage\<close>

text \<open>The cache called \<open>name\<close> holds response \<open>r\<close> under URL \<open>u\<close>.\<close>

definition holds :: "cache_storage \<Rightarrow> string \<Rightarrow> string \<Rightarrow> response \<Rightarrow> bool" where
  "holds st name u r = (\<exists>c. (name, c) \<in> set st \<and> c u = Some r)"

section \<open>Statistics manager (StatsManager in js/stats.js)\<close>

subsection \<open>The Number type\<close>

text \<open>
  A JavaScript Number is an IEEE 754 binary64 value: a finite value (a rational that
  binary64 represents), an infinity or NaN. The two zeros are one value here, as they
  are for \<^verbatim>\<open>===\<close>; only division by a zero tells them apart, and the divisors of
  this module (the literal 10 and the result of \<^verbatim>\<open>totalPredictions += 1\<close>) are never
  the negative zero.
\<close>

datatype number = Finite rat | PosInfinity | NegInfinity | NaN

text \<open>The binary exponent of a non-zero rational: \<open>2 ^ expo x \<le> \<bar>x\<bar> < 2 ^ (expo x + 1)\<close>.\<close>

definition expo :: "rat \<Rightarrow> int" where
  "expo x =
     (if 1 \<le> \<bar>x\<bar> then bitlen \<lfloor>\<bar>x\<bar>\<rfloor> - 1
      else - bitlen (\<lceil>1 / \<bar>x\<bar>\<rceil> - 1))"

definition round_half_even :: "rat \<Rightarrow> int" where
  "round_half_even y =
     (let f = \<lfloor>y\<rfloor>; d = y - of_int f
      in if d < 1 / 2 then f
         else if 1 / 2 < d then f + 1
         else if even f then f else f + 1)"

text \<open>
  Rounding an exact result to binary64, to nearest with ties to even: 53 significant
  bits, the exponent not below -1022 (subnormal numbers), and an infinity when the
  rounded magnitude reaches \<open>2 ^ 1024\<close>.
\<close>

definition fl :: "rat \<Rightarrow> number" where
  "fl x =
     (if x = 0 then Finite 0
      else
        let e = max (expo x) (- 1022);
            q = power_int 2 (e - 52);
            y = of_int (round_half_even (\<bar>x\<bar> / q)) * q
        in if power_int 2 1024 \<le> y then (if 0 < x then PosInfinity else NegInfinity)
           else Finite (sgn x * y))"

text \<open>The operators \<^verbatim>\<open>+\<close>, \<^verbatim>\<open>*\<close> and \<^verbatim>\<open>/\<close> on Numbers.\<close>

fun num_add :: "number \<Rightarrow> number \<Rightarrow> number" where
  "num_add NaN b = NaN"
| "num_add a NaN = NaN"
| "num_add PosInfinity NegInfinity = NaN"
| "num_add NegInfinity PosInfinity = NaN"
| "num_add PosInfinity b = PosInfinity"
| "num_add NegInfinity b = NegInfinity"
| "num_add a PosInfinity = PosInfinity"
| "num_add a NegInfinity = NegInfinity"
| "num_add (Finite x) (Finite y) = fl (x + y)"

fun num_mul :: "number \<Rightarrow> number \<Rightarrow> number" where
  "num_mul NaN b = NaN"
| "num_mul a NaN = NaN"
| "num_mul (Finite x) (Finite y) = fl (x * y)"
| "num_mul (Finite x) b =
     (if x = 0 then NaN else if (0 < x) = (b = PosInfinity) then PosInfinity else NegInfinity)"
| "num_mul a (Finite y) =
     (if y = 0 then NaN else if (0 < y) = (a = PosInfinity) then PosInfinity else NegInfinity)"
| "num_mul a b = (if a = b then PosInfinity else NegInfinity)"

fun num_div :: "number \<Rightarrow> number \<Rightarrow> number" where
  "num_div NaN b = NaN"
| "num_div a NaN = NaN"
| "num_div (Finite x) (Finite y) =
     (if y = 0 then (if x = 0 then NaN else if 0 < x then PosInfinity else NegInfinity)
      else fl (x / y))"
| "num_div (Finite x) b = Finite 0"
| "num_div a (Finite y) =
     (if (0 \<le> y) = (a = PosInfinity) then PosInfinity else NegInfinity)"
| "num_div a b = NaN"

text \<open>
  \<^verbatim>\<open>Math.round\<close>: the nearest integer, a tie going towards positive infinity. The
  result is exact: an integer next to a binary64 value is a binary64 value.
\<close>

fun Math_round :: "number \<Rightarrow> number" where
  "Math_round (Finite x) = Finite (of_int \<lfloor>x + 1 / 2\<rfloor>)"
| "Math_round a = a"

subsection \<open>The module\<close>

text \<open>
  The module state: \<^verbatim>\<open>totalPredictions\<close>, \<^verbatim>\<open>totalConfidence\<close>, \<^verbatim>\<open>averageConfidence\<close>.
  \<^verbatim>\<open>save()\<close> writes them to localStorage inside its own \<^verbatim>\<open>try\<close>/\<^verbatim>\<open>catch\<close> and changes
  none of them, so it does not appear below.
\<close>

record stats_state =
  totalPredictions :: number
  totalConfidence :: number
  averageConfidence :: number

record stats =
  total :: number
  average :: number

definition getStats :: "stats_state \<Rightarrow> stats" where
  "getStats s =
     \<lparr>total = totalPredictions s,
      average = num_div (Math_round (num_mul (averageConfidence s) (Finite 10))) (Finite 10)\<rparr>"

definition addPrediction :: "number \<Rightarrow> stats_state \<Rightarrow> stats \<times> stats_state" where
  "addPrediction confidence s =
     (let s1 = s\<lparr>totalPredictions := num_add (totalPredictions s) (Finite 1)\<rparr>;
          s2 = s1\<lparr>totalConfidence := num_add (totalConfidence s1) confidence\<rparr>;
          s3 = s2\<lparr>averageConfidence := num_div (totalConfidence s2) (totalPredictions s2)\<rparr>
      in (getStats s3, s3))"

definition reset :: "stats_state \<Rightarrow> stats \<times> stats_state" where
  "reset s =
     (let s1 = s\<lparr>totalPredictions := Finite 0, totalConfidence := Finite 0,
                 averageConfidence := Finite 0\<rparr>
      in (getStats s1, s1))"

section \<open>Model manager (ModelManager in js/stats.js)\<close>

text \<open>
  The module state: \<^verbatim>\<open>let model = null; let isLoaded = false;\<close>. The TensorFlow model
  object is opaque, a value of the type parameter.
\<close>

record 'm model_manager =
  model :: "'m option"
  isLoaded :: bool

definition model_manager_initial :: "'m model_manager" where
  "model_manager_initial = \<lparr>model = None, isLoaded = False\<rparr>"

text \<open>
  What TensorFlow does during one call of \<^verbatim>\<open>init\<close>: \<^verbatim>\<open>tf.sequential(...)\<close> returns a
  model or throws, \<^verbatim>\<open>model.compile(...)\<close> returns or throws, \<^verbatim>\<open>model.loadWeights(...)\<close>
  fulfils or rejects.
\<close>

record 'm tf_run =
  sequential :: "js_error + 'm"
  compile :: "js_error + unit"
  loadWeights :: "js_error + unit"

text \<open>
  The part of \<^verbatim>\<open>init\<close> before \<^verbatim>\<open>await model.loadWeights(...)\<close>, where the function
  is suspended and other handlers may run.
\<close>

definition init_until_await :: "'m tf_run \<Rightarrow> 'm model_manager \<Rightarrow> (js_error + unit) \<times> 'm model_manager" where
  "init_until_await tf s =
     (case sequential tf of
        Inl error \<Rightarrow> (Inl error, s)
      | Inr m \<Rightarrow>
          (case compile tf of
             Inl error \<Rightarrow> (Inl error, s\<lparr>model := Some m\<rparr>)
           | Inr _ \<Rightarrow> (Inr (), s\<lparr>model := Some m\<rparr>)))"

text \<open>
  The inner \<^verbatim>\<open>try { await model.loadWeights(...) } catch (e) { console.log(...) }\<close> only
  logs on either path; then \<^verbatim>\<open>isLoaded = true; return true\<close>. The outer \<^verbatim>\<open>catch\<close>
  rethrows.
\<close>

definition ModelManager_init :: "'m tf_run \<Rightarrow> 'm model_manager \<Rightarrow> (js_error + bool) \<times> 'm model_manager" where
  "ModelManager_init tf s =
     (case init_until_await tf s of
        (Inl error, s1) \<Rightarrow> (Inl error, s1)
      | (Inr _, s1) \<Rightarrow>
          (case loadWeights tf of
             Inr _ \<Rightarrow> (Inr True, s1\<lparr>isLoaded := True\<rparr>)
           | Inl e \<Rightarrow> (Inr True, s1\<lparr>isLoaded := True\<rparr>)))"

text \<open>
  \<^verbatim>\<open>predict\<close>: the guard \<^verbatim>\<open>if (!isLoaded || !model) throw new Error('Model not loaded')\<close>,
  then the TensorFlow pipeline (preprocessing, \<^verbatim>\<open>model.predict\<close>, ranking), which is
  the parameter \<open>infer\<close> and may itself throw. Past the guard \<open>model s\<close> is not \<open>None\<close>.
\<close>

definition predict ::
  "('m \<Rightarrow> 'i \<Rightarrow> js_error + 'p) \<Rightarrow> 'm model_manager \<Rightarrow> 'i \<Rightarrow> js_error + 'p" where
  "predict infer s imageData =
     (if \<not> isLoaded s \<or> model s = None then Inl (Error ''Model not loaded'')
      else infer (the (model s)) imageData)"

text \<open>A sequence of calls of \<^verbatim>\<open>init\<close>, each run to completion.\<close>

fun init_calls_run :: "'m tf_run list \<Rightarrow> 'm model_manager \<Rightarrow> 'm model_manager" where
  "init_calls_run [] s = s"
| "init_calls_run (tf # tfs) s = init_calls_run tfs (snd (ModelManager_init tf s))"

definition init_fulfils :: "'m tf_run \<Rightarrow> 'm model_manager \<Rightarrow> bool" where
  "init_fulfils tf s = (fst (ModelManager_init tf s) = Inr True)"

text \<open>Every call of the sequence rejects.\<close>

fun none_fulfils :: "'m tf_run list \<Rightarrow> 'm model_manager \<Rightarrow> bool" where
  "none_fulfils [] s = True"
| "none_fulfils (tf # tfs) s =
     (\<not> init_fulfils tf s \<and> none_fulfils tfs (snd (ModelManager_init tf s)))"

section \<open>Application bootstrap (main application in js/ui.js)\<close>

datatype status_message = Loading_AI_Model | Retrying int int

text \<open>
  What the bootstrap asks of its collaborators, in the order it asks: a call of
  \<^verbatim>\<open>ModelManager.init()\<close>, a call of \<^verbatim>\<open>sleep(ms)\<close> with its argument in milliseconds,
  a call of \<^verbatim>\<open>showError()\<close>, a call of \<^verbatim>\<open>showApp()\<close>.
\<close>

datatype boot_event =
  ModelManager_init_called
| sleep_called rat
| showError_called
| showApp_called

text \<open>
  The module state (\<^verbatim>\<open>modelLoaded\<close>, \<^verbatim>\<open>currentAttempt\<close>), the parts of the page the
  bootstrap writes, and the calls made so far, oldest first.
\<close>

record app_state =
  modelLoaded :: bool
  currentAttempt :: int
  loadingStatus :: status_message
  loadingScreen_shown :: bool
  errorScreen_shown :: bool
  appContainer_shown :: bool
  trace :: "boot_event list"

definition MAX_ATTEMPTS :: int where
  "MAX_ATTEMPTS = 3"

definition app_initial :: app_state where
  "app_initial =
     \<lparr>modelLoaded = False, currentAttempt = 1, loadingStatus = Loading_AI_Model,
      loadingScreen_shown = True, errorScreen_shown = False, appContainer_shown = False,
      trace = []\<rparr>"

definition log_call :: "boot_event \<Rightarrow> app_state \<Rightarrow> app_state" where
  "log_call e s = s\<lparr>trace := trace s @ [e]\<rparr>"

text \<open>How often \<^verbatim>\<open>ModelManager.init()\<close> has been called, and the sleeps in order.\<close>

definition init_calls :: "app_state \<Rightarrow> nat" where
  "init_calls s = length (filter (\<lambda>e. e = ModelManager_init_called) (trace s))"

fun sleep_args :: "boot_event list \<Rightarrow> rat list" where
  "sleep_args [] = []"
| "sleep_args (sleep_called ms # es) = ms # sleep_args es"
| "sleep_args (e # es) = sleep_args es"

definition sleeps :: "app_state \<Rightarrow> rat list" where
  "sleeps s = sleep_args (trace s)"

text \<open>
  The collaborators: whether the \<open>k\<close>-th call of \<^verbatim>\<open>ModelManager.init()\<close> (counting
  from 0) fulfils, and whether \<^verbatim>\<open>CanvasManager.init()\<close>, \<^verbatim>\<open>UIManager.init()\<close> and
  \<^verbatim>\<open>StatsManager.init()\<close> return without throwing.
\<close>

record collaborators =
  model_init_ok :: "nat \<Rightarrow> bool"
  canvas_init_ok :: bool
  ui_init_ok :: bool
  stats_init_ok :: bool

definition updateLoadingStatus :: "status_message \<Rightarrow> app_state \<Rightarrow> app_state" where
  "updateLoadingStatus message s = s\<lparr>loadingStatus := message\<rparr>"

text \<open>
  \<^verbatim>\<open>hideLoading\<close> starts a fade-out and hides the loading screen from a timer 300 ms
  later; the state below is the one after that timer.
\<close>

definition hideLoading :: "app_state \<Rightarrow> app_state" where
  "hideLoading s = s\<lparr>loadingScreen_shown := False\<rparr>"

definition showApp :: "app_state \<Rightarrow> app_state" where
  "showApp s = log_call showApp_called (s\<lparr>appContainer_shown := True\<rparr>)"

definition showError :: "app_state \<Rightarrow> app_state" where
  "showError s =
     log_call showError_called (s\<lparr>loadingScreen_shown := False, errorScreen_shown := True\<rparr>)"

definition sleep :: "rat \<Rightarrow> app_state \<Rightarrow> app_state" where
  "sleep ms s = log_call (sleep_called ms) s"

text \<open>
  \<^verbatim>\<open>initializeApp\<close> catches whatever its body throws and calls \<^verbatim>\<open>showError()\<close>; it
  never throws into \<^verbatim>\<open>loadModel\<close>.
\<close>

definition initializeApp :: "collaborators \<Rightarrow> app_state \<Rightarrow> app_state" where
  "initializeApp env s =
     (if canvas_init_ok env \<and> ui_init_ok env \<and> stats_init_ok env
      then showApp (hideLoading s)
      else showError s)"

text \<open>
  \<^verbatim>\<open>Math.pow(2, currentAttempt - 2) * 1000\<close>, in milliseconds. The values a run reaches
  are powers of two times 1000, which the Number type represents exactly.
\<close>

definition backoff_delay :: "int \<Rightarrow> rat" where
  "backoff_delay attempt = power_int 2 (attempt - 2) * 1000"

function loadModel :: "collaborators \<Rightarrow> app_state \<Rightarrow> app_state" where
  "loadModel env s =
     (let s1 = updateLoadingStatus Loading_AI_Model s;
          s2 = log_call ModelManager_init_called s1
      in if model_init_ok env (init_calls s1) then
           initializeApp env (s2\<lparr>modelLoaded := True\<rparr>)
         else if currentAttempt s2 < MAX_ATTEMPTS then
           (let s3 = s2\<lparr>currentAttempt := currentAttempt s2 + 1\<rparr>;
                delay = backoff_delay (currentAttempt s3);
                s4 = updateLoadingStatus (Retrying (currentAttempt s3) MAX_ATTEMPTS) s3
            in loadModel env (sleep delay s4))
         else showError s2)"
  by pat_completeness auto
termination
  by (relation "measure (\<lambda>(env, s). nat (MAX_ATTEMPTS - currentAttempt s))")
     (auto simp: updateLoadingStatus_def sleep_def log_call_def)

declare loadModel.simps [simp del]

text \<open>The terminal states of a bootstrap run, as the page shows them.\<close>

definition Failed :: "app_state \<Rightarrow> bool" where
  "Failed s = errorScreen_shown s"

definition Ready :: "app_state \<Rightarrow> bool" where
  "Ready s = appContainer_shown s"

section \<open>Properties of the service worker\<close>

subsection \<open>Lookup\<close>

lemma holds_Nil: "\<not> holds [] n u r"
  by (simp add: holds_def)

lemma holds_Cons:
  "holds ((m, c) # st) n u r \<longleftrightarrow> (m = n \<and> c u = Some r) \<or> holds st n u r"
  by (auto simp: holds_def)

lemma caches_match_SomeD:
  "caches_match st u = Some r \<Longrightarrow> \<exists>n. holds st n u r"
  by (induction st) (auto simp: holds_Cons split: option.splits)

lemma caches_match_None_iff:
  "caches_match st u = None \<longleftrightarrow> (\<forall>(n, c) \<in> set st. c u = None)"
  by (induction st) (auto split: option.splits)

lemma holds_caches_match:
  "holds st n u r \<Longrightarrow> \<exists>cached. caches_match st u = Some cached"
  by (induction st) (auto simp: holds_Nil holds_Cons split: option.splits)

text \<open>
  C2. A request whose origin differs from the application's, for a URL under which some
  cache holds an entry when the handler runs, is answered with an entry cached under
  that URL; \<^verbatim>\<open>fetch\<close> is not called and the CacheStorage is left as it was.
\<close>

theorem cross_origin_cached_skips_network:
  assumes "origin req \<noteq> location_origin" and "holds st n (url req) r"
  shows "\<exists>n' cached. holds st n' (url req) cached
           \<and> responded (fetch_handler location_origin net st req) = Inr cached
           \<and> fetched (fetch_handler location_origin net st req) = []
           \<and> storage (fetch_handler location_origin net st req) = st"
proof -
  from holds_caches_match [OF assms(2)]
  obtain cached where m: "caches_match st (url req) = Some cached" by blast
  from caches_match_SomeD [OF m] obtain n' where "holds st n' (url req) cached" by blast
  then show ?thesis
    using assms(1) m by (auto simp: fetch_handler_def cache_first_def)
qed

theorem cross_origin_cached_skips_network_witness:
  "origin \<lparr>url = ''https://cdn.example/tf.min.js'', origin = ''https://cdn.example''\<rparr>
     \<noteq> ''https://app.example''
   \<and> holds [(CACHE_NAME, [''https://cdn.example/tf.min.js'' \<mapsto> \<lparr>status = 200, body = ''tf''\<rparr>])]
        CACHE_NAME
        (url \<lparr>url = ''https://cdn.example/tf.min.js'', origin = ''https://cdn.example''\<rparr>)
        \<lparr>status = 200, body = ''tf''\<rparr>
   \<and> responded (fetch_handler ''https://app.example'' (\<lambda>u. Inr \<lparr>status = 200, body = ''new''\<rparr>)
        [(CACHE_NAME, [''https://cdn.example/tf.min.js'' \<mapsto> \<lparr>status = 200, body = ''tf''\<rparr>])]
        \<lparr>url = ''https://cdn.example/tf.min.js'', origin = ''https://cdn.example''\<rparr>)
       = Inr \<lparr>status = 200, body = ''tf''\<rparr>
   \<and> fetched (fetch_handler ''https://app.example'' (\<lambda>u. Inr \<lparr>status = 200, body = ''new''\<rparr>)
        [(CACHE_NAME, [''https://cdn.example/tf.min.js'' \<mapsto> \<lparr>status = 200, body = ''tf''\<rparr>])]
        \<lparr>url = ''https://cdn.example/tf.min.js'', origin = ''https://cdn.example''\<rparr>) = []"
proof -
  let ?req = "\<lparr>url = ''https://cdn.example/tf.min.js'', origin = ''https://cdn.example''\<rparr>"
  let ?r = "\<lparr>status = 200, body = ''tf''\<rparr>"
  let ?st = "[(CACHE_NAME, [''https://cdn.example/tf.min.js'' \<mapsto> ?r])]"
  let ?out = "fetch_handler ''https://app.example'' (\<lambda>u. Inr \<lparr>status = 200, body = ''new''\<rparr>) ?st ?req"
  have o: "origin ?req \<noteq> ''https://app.example''" by simp
  have h: "holds ?st CACHE_NAME (url ?req) ?r" by (simp add: holds_def)
  from cross_origin_cached_skips_network [OF o h, of "\<lambda>u. Inr \<lparr>status = 200, body = ''new''\<rparr>"]
  obtain n' cached where c: "holds ?st n' (url ?req) cached"
    and r: "responded ?out = Inr cached" and f: "fetched ?out = []"
    by blast
  from c have "cached = ?r" by (simp add: holds_def)
  with o h r f show ?thesis by simp
qed

text \<open>
  C3. A same-origin request whose \<^verbatim>\<open>fetch\<close> resolves is answered with the response the
  network gave, whatever the caches hold.
\<close>

theorem same_origin_live_response:
  assumes "origin req = location_origin" and "net (url req) = Inr r"
  shows "responded (fetch_handler location_origin net st req) = Inr r"
  using assms by (simp add: fetch_handler_def network_first_def)

theorem same_origin_live_response_witness:
  "origin \<lparr>url = ''https://app.example/js/ui.js'', origin = ''https://app.example''\<rparr>
     = ''https://app.example''
   \<and> (\<lambda>u. Inr \<lparr>status = 200, body = ''live''\<rparr> :: js_error + response)
        (url \<lparr>url = ''https://app.example/js/ui.js'', origin = ''https://app.example''\<rparr>)
       = Inr \<lparr>status = 200, body = ''live''\<rparr>
   \<and> holds [(CACHE_NAME, [''https://app.example/js/ui.js'' \<mapsto> \<lparr>status = 200, body = ''stale''\<rparr>])]
        CACHE_NAME ''https://app.example/js/ui.js'' \<lparr>status = 200, body = ''stale''\<rparr>
   \<and> responded (fetch_handler ''https://app.example'' (\<lambda>u. Inr \<lparr>status = 200, body = ''live''\<rparr>)
        [(CACHE_NAME, [''https://app.example/js/ui.js'' \<mapsto> \<lparr>status = 200, body = ''stale''\<rparr>])]
        \<lparr>url = ''https://app.example/js/ui.js'', origin = ''https://app.example''\<rparr>)
       = Inr \<lparr>status = 200, body = ''live''\<rparr>"
  using same_origin_live_response
    [of "\<lparr>url = ''https://app.example/js/ui.js'', origin = ''https://app.example''\<rparr>"
        "''https://app.example''" "\<lambda>u. Inr \<lparr>status = 200, body = ''live''\<rparr>"
        "\<lparr>status = 200, body = ''live''\<rparr>"
        "[(CACHE_NAME, [''https://app.example/js/ui.js'' \<mapsto> \<lparr>status = 200, body = ''stale''\<rparr>])]"]
  by (simp add: holds_def)

text \<open>
  C4. A same-origin request whose \<^verbatim>\<open>fetch\<close> rejects, for a URL no cache holds, makes
  the handler reject with the error "No cached version available"; it does not answer
  with a response.
\<close>

theorem same_origin_no_cache_no_network:
  assumes "origin req = location_origin" and "net (url req) = Inl e"
    and "\<forall>(n, c) \<in> set st. c (url req) = None"
  shows "responded (fetch_handler location_origin net st req)
           = Inl (Error ''No cached version available'')"
proof -
  have "caches_match st (url req) = None"
    using assms(3) by (simp add: caches_match_None_iff)
  then show ?thesis
    using assms(1,2) by (simp add: fetch_handler_def network_first_def)
qed

theorem same_origin_no_cache_no_network_witness:
  "origin \<lparr>url = ''https://app.example/js/new.js'', origin = ''https://app.example''\<rparr>
     = ''https://app.example''
   \<and> (\<lambda>u. Inl (TypeError ''Failed to fetch'') :: js_error + response)
        (url \<lparr>url = ''https://app.example/js/new.js'', origin = ''https://app.example''\<rparr>)
       = Inl (TypeError ''Failed to fetch'')
   \<and> caches_match [(CACHE_NAME, [''https://app.example/js/ui.js'' \<mapsto> \<lparr>status = 200, body = ''ui''\<rparr>])]
        ''https://app.example/js/new.js'' = None
   \<and> responded (fetch_handler ''https://app.example'' (\<lambda>u. Inl (TypeError ''Failed to fetch''))
        [(CACHE_NAME, [''https://app.example/js/ui.js'' \<mapsto> \<lparr>status = 200, body = ''ui''\<rparr>])]
        \<lparr>url = ''https://app.example/js/new.js'', origin = ''https://app.example''\<rparr>)
       = Inl (Error ''No cached version available'')"
  using same_origin_no_cache_no_network
    [of "\<lparr>url = ''https://app.example/js/new.js'', origin = ''https://app.example''\<rparr>"
        "''https://app.example''" "\<lambda>u. Inl (TypeError ''Failed to fetch'')"
        "TypeError ''Failed to fetch''"
        "[(CACHE_NAME, [''https://app.example/js/ui.js'' \<mapsto> \<lparr>status = 200, body = ''ui''\<rparr>])]"]
  by simp

subsection \<open>What the handlers write\<close>

lemma holds_caches_open: "holds (caches_open name st) n u r \<longleftrightarrow> holds st n u r"
  by (induction st) (auto simp: holds_Nil holds_Cons split: if_splits)

lemma holds_cache_put:
  "holds (cache_put name u' r' st) n u r \<Longrightarrow> holds st n u r \<or> (n = name \<and> u = u' \<and> r = r')"
  by (induction st) (auto simp: holds_Nil holds_Cons split: if_splits)

lemma holds_put_all:
  "holds (put_all name rs st) n u r \<Longrightarrow> holds st n u r \<or> (n = name \<and> (u, r) \<in> set rs)"
proof (induction rs arbitrary: st)
  case Nil
  then show ?case by simp
next
  case (Cons p rs)
  obtain u' r' where p: "p = (u', r')" by (cases p)
  from Cons.prems have "holds (put_all name rs (cache_put name u' r' st)) n u r"
    by (simp add: p)
  from Cons.IH [OF this] show ?case
    using holds_cache_put [of name u' r' st n u r] by (auto simp: p)
qed

lemma fetch_all_ok:
  "fetch_all net us = Inr rs \<Longrightarrow> (u, r) \<in> set rs \<Longrightarrow> ok r"
  by (induction us arbitrary: rs) (auto split: sum.splits if_splits)

lemma holds_addAll:
  "holds (snd (cache_addAll net name us st)) n u r \<Longrightarrow> holds st n u r \<or> ok r"
  by (auto simp: cache_addAll_def split: sum.splits dest: holds_put_all fetch_all_ok)

lemma holds_add_cdn_files:
  "holds (add_cdn_files net st) n u r \<Longrightarrow> holds st n u r \<or> ok r"
proof -
  have "holds (fold (add_swallowed net CACHE_NAME) us st) n u r \<Longrightarrow> holds st n u r \<or> ok r" for us
  proof (induction us arbitrary: st)
    case Nil
    then show ?case by simp
  next
    case (Cons a us)
    from Cons.IH [of "add_swallowed net CACHE_NAME a st"] Cons.prems
    have "holds (add_swallowed net CACHE_NAME a st) n u r \<or> ok r" by simp
    then show ?case
      using holds_addAll [of net CACHE_NAME "[a]" st n u r]
      by (auto simp: add_swallowed_def cache_add_def)
  qed
  then show "holds (add_cdn_files net st) n u r \<Longrightarrow> holds st n u r \<or> ok r"
    by (simp add: add_cdn_files_def)
qed

lemma holds_install:
  assumes "holds (snd (install net st)) n u r"
  shows "holds st n u r \<or> ok r"
proof -
  let ?st0 = "caches_open CACHE_NAME st"
  obtain res st1 where a: "cache_addAll net CACHE_NAME STATIC_CACHE_FILES ?st0 = (res, st1)"
    by (cases "cache_addAll net CACHE_NAME STATIC_CACHE_FILES ?st0")
  have s1: "holds st1 n u r \<Longrightarrow> holds st n u r \<or> ok r"
    using holds_addAll [of net CACHE_NAME STATIC_CACHE_FILES ?st0 n u r] a
    by (simp add: holds_caches_open)
  show ?thesis
  proof (cases res)
    case (Inl e)
    then show ?thesis using assms a s1 by (simp add: install_def)
  next
    case (Inr x)
    with assms a have "holds (add_cdn_files net (caches_open CACHE_NAME st1)) n u r"
      by (simp add: install_def)
    from holds_add_cdn_files [OF this] show ?thesis
      using s1 by (auto simp: holds_caches_open)
  qed
qed

lemma holds_cache_successful:
  "holds (cache_successful u' r' st) n u r \<Longrightarrow> holds st n u r \<or> (status r = 200 \<and> ok r)"
  by (auto simp: cache_successful_def open_then_put_def ok_def holds_caches_open
      split: if_splits dest!: holds_cache_put)

lemma holds_fetch_handler:
  "holds (storage (fetch_handler location_origin net st req)) n u r \<Longrightarrow>
   holds st n u r \<or> (status r = 200 \<and> ok r)"
  by (auto simp: fetch_handler_def cache_first_def network_first_def
      split: if_splits option.splits sum.splits dest: holds_cache_successful)

text \<open>
  C5. Whatever a cache holds after a run of the fetch handler (either branch) or of the
  install handler and did not hold before has a successful status: a response whose
  status is not successful is never written. (What the fetch handler writes has status
  200; what install writes passed the check of \<^verbatim>\<open>cache.addAll\<close> and \<^verbatim>\<open>cache.add\<close>.)
\<close>

theorem only_successful_responses_written:
  "(holds (storage (fetch_handler location_origin net st req)) n u r \<and> \<not> holds st n u r
      \<longrightarrow> ok r)
   \<and> (holds (snd (install net st)) n u r \<and> \<not> holds st n u r \<longrightarrow> ok r)"
  using holds_fetch_handler [of location_origin net st req n u r] holds_install [of net st n u r]
  by blast

theorem only_successful_responses_written_witness:
  "holds (storage (fetch_handler ''https://app.example'' (\<lambda>u. Inr \<lparr>status = 200, body = ''ui''\<rparr>) []
       \<lparr>url = ''https://app.example/js/ui.js'', origin = ''https://app.example''\<rparr>))
     CACHE_NAME ''https://app.example/js/ui.js'' \<lparr>status = 200, body = ''ui''\<rparr>
   \<and> \<not> holds [] CACHE_NAME ''https://app.example/js/ui.js'' \<lparr>status = 200, body = ''ui''\<rparr>
   \<and> holds (snd (install (\<lambda>u. Inr \<lparr>status = 200, body = ''ui''\<rparr>) []))
       CACHE_NAME ''./index.html'' \<lparr>status = 200, body = ''ui''\<rparr>
   \<and> ok \<lparr>status = 200, body = ''ui''\<rparr>
   \<and> storage (fetch_handler ''https://app.example'' (\<lambda>u. Inr \<lparr>status = 404, body = ''no''\<rparr>) []
       \<lparr>url = ''https://app.example/js/ui.js'', origin = ''https://app.example''\<rparr>) = []"
proof -
  let ?r = "\<lparr>status = 200, body = ''ui''\<rparr>"
  let ?req = "\<lparr>url = ''https://app.example/js/ui.js'', origin = ''https://app.example''\<rparr>"
  have a: "holds (storage (fetch_handler ''https://app.example'' (\<lambda>u. Inr ?r) [] ?req))
     CACHE_NAME ''https://app.example/js/ui.js'' ?r"
    by (simp add: fetch_handler_def network_first_def cache_successful_def open_then_put_def
        holds_def)
  have b: "\<not> holds [] CACHE_NAME ''https://app.example/js/ui.js'' ?r"
    by (simp add: holds_def)
  have c: "holds (snd (install (\<lambda>u. Inr ?r) [])) CACHE_NAME ''./index.html'' ?r"
    by (simp add: install_def cache_addAll_def STATIC_CACHE_FILES_def CDN_CACHE_FILES_def
        add_cdn_files_def add_swallowed_def cache_add_def ok_def holds_def)
  have d: "storage (fetch_handler ''https://app.example'' (\<lambda>u. Inr \<lparr>status = 404, body = ''no''\<rparr>) []
       ?req) = []"
    by (simp add: fetch_handler_def network_first_def cache_successful_def)
  from only_successful_responses_written
    [of "''https://app.example''" "\<lambda>u. Inr ?r" "[]" ?req CACHE_NAME
        "''https://app.example/js/ui.js''" ?r] a b
  have "ok ?r" by blast
  with a b c d show ?thesis by blast
qed

subsection \<open>Install and activate\<close>

lemma fetch_all_rejects_iff:
  "isl (fetch_all net us) \<longleftrightarrow> (\<exists>u \<in> set us. \<not> addable net u)"
proof (induction us)
  case Nil
  then show ?case by simp
next
  case (Cons a us)
  have "isl (fetch_all net (a # us)) \<longleftrightarrow> \<not> addable net a \<or> isl (fetch_all net us)"
    by (auto simp: addable_def split: sum.splits)
  with Cons.IH show ?case by simp
qed

text \<open>
  C7. When one file of \<open>STATIC_CACHE_FILES\<close> cannot be fetched and stored, the promise
  given to \<^verbatim>\<open>event.waitUntil\<close> rejects: the installation fails. When all of them can,
  the promise fulfils whatever happens to the files of \<open>CDN_CACHE_FILES\<close>: a failure
  there is logged and swallowed.
\<close>

theorem install_fatal_static_tolerant_cdn:
  "((\<exists>u \<in> set STATIC_CACHE_FILES. \<not> addable net u) \<longrightarrow> isl (fst (install net st)))
   \<and> ((\<forall>u \<in> set STATIC_CACHE_FILES. addable net u) \<longrightarrow> fst (install net st) = Inr ())"
proof -
  have "isl (fst (install net st)) \<longleftrightarrow> isl (fetch_all net STATIC_CACHE_FILES)"
    by (simp add: install_def cache_addAll_def split: sum.splits)
  then have "isl (fst (install net st)) \<longleftrightarrow> (\<exists>u \<in> set STATIC_CACHE_FILES. \<not> addable net u)"
    by (simp add: fetch_all_rejects_iff)
  then show ?thesis by (cases "fst (install net st)") auto
qed

theorem install_fatal_static_tolerant_cdn_witness:
  "fst (install (\<lambda>u. if u \<in> set STATIC_CACHE_FILES then Inr \<lparr>status = 200, body = ''file''\<rparr>
                    else Inl (TypeError ''Failed to fetch'')) []) = Inr ()
   \<and> isl (fst (install (\<lambda>u. if u = ''./js/stats.js'' then Inr \<lparr>status = 404, body = ''gone''\<rparr>
                    else Inr \<lparr>status = 200, body = ''file''\<rparr>) []))"
proof -
  let ?good = "\<lambda>u. if u \<in> set STATIC_CACHE_FILES then Inr \<lparr>status = 200, body = ''file''\<rparr>
                    else Inl (TypeError ''Failed to fetch'')"
  let ?bad = "\<lambda>u. if u = ''./js/stats.js'' then Inr \<lparr>status = 404, body = ''gone''\<rparr>
                    else Inr \<lparr>status = 200, body = ''file''\<rparr>"
  have g: "\<forall>u \<in> set STATIC_CACHE_FILES. addable ?good u"
    by (simp add: addable_def ok_def)
  have b: "\<exists>u \<in> set STATIC_CACHE_FILES. \<not> addable ?bad u"
    by (simp add: addable_def ok_def STATIC_CACHE_FILES_def)
  from install_fatal_static_tolerant_cdn [of ?good "[]"] g
  have 1: "fst (install ?good []) = Inr ()" by blast
  from install_fatal_static_tolerant_cdn [of ?bad "[]"] b
  have 2: "isl (fst (install ?bad []))" by blast
  from 1 2 show ?thesis by blast
qed

lemma caches_keys_delete:
  "caches_keys (caches_delete name st) = filter (\<lambda>k. k \<noteq> name) (caches_keys st)"
  by (induction st) (auto simp: caches_keys_def)

lemma caches_keys_fold_delete_old:
  "caches_keys (fold delete_old xs st) =
     filter (\<lambda>k. k = CACHE_NAME \<or> k \<notin> set xs) (caches_keys st)"
proof (induction xs arbitrary: st)
  case Nil
  then show ?case by simp
next
  case (Cons x xs)
  show ?case
  proof (cases "x = CACHE_NAME")
    case True
    then show ?thesis using Cons.IH [of st] by (auto simp: delete_old_def intro: filter_cong)
  next
    case False
    then show ?thesis
      using Cons.IH [of "caches_delete x st"]
      by (auto simp: delete_old_def caches_keys_delete intro: filter_cong)
  qed
qed

lemma caches_keys_activate:
  "caches_keys (activate st) = filter (\<lambda>k. k = CACHE_NAME) (caches_keys st)"
  unfolding activate_def caches_keys_fold_delete_old
  by (rule filter_cong) auto

lemma filter_eq_distinct:
  "distinct xs \<Longrightarrow> x \<in> set xs \<Longrightarrow> filter (\<lambda>k. k = x) xs = [x]"
  by (induction xs) (auto simp: filter_empty_conv)

text \<open>
  C6. Whatever caches exist when the activate handler runs (cache names are unique), any
  number of old ones and the current one, \<^verbatim>\<open>caches.keys()\<close> afterwards yields the
  current cache's name and nothing else.
\<close>

theorem activate_leaves_current_only:
  assumes "distinct (caches_keys st)" and "CACHE_NAME \<in> set (caches_keys st)"
  shows "caches_keys (activate st) = [CACHE_NAME]"
  using assms by (simp add: caches_keys_activate filter_eq_distinct)

theorem activate_leaves_current_only_witness:
  "distinct (caches_keys [(''digit-recognition-v0'', Map.empty), (CACHE_NAME, Map.empty),
       (''other'', Map.empty)])
   \<and> CACHE_NAME \<in> set (caches_keys [(''digit-recognition-v0'', Map.empty), (CACHE_NAME, Map.empty),
       (''other'', Map.empty)])
   \<and> caches_keys (activate [(''digit-recognition-v0'', Map.empty), (CACHE_NAME, Map.empty),
       (''other'', Map.empty)]) = [CACHE_NAME]"
proof -
  let ?st = "[(''digit-recognition-v0'', Map.empty), (CACHE_NAME, Map.empty),
       (''other'', Map.empty)] :: cache_storage"
  have d: "distinct (caches_keys ?st)" by (simp add: caches_keys_def CACHE_NAME_def)
  have m: "CACHE_NAME \<in> set (caches_keys ?st)" by (simp add: caches_keys_def)
  show ?thesis using d m activate_leaves_current_only [OF d m] by simp
qed

text \<open>
  The current cache exists whenever activate runs, since install opens it first.
\<close>

lemma caches_keys_open:
  "caches_keys (caches_open name st) =
     (if name \<in> set (caches_keys st) then caches_keys st else caches_keys st @ [name])"
  by (induction st) (force simp: caches_keys_def)+

lemma caches_keys_put: "caches_keys (cache_put name u r st) = caches_keys st"
  by (induction st) (auto simp: caches_keys_def)

lemma caches_keys_put_all: "caches_keys (put_all name rs st) = caches_keys st"
  by (induction rs arbitrary: st) (auto simp: caches_keys_put)

lemma caches_keys_addAll: "caches_keys (snd (cache_addAll net name us st)) = caches_keys st"
  by (simp add: cache_addAll_def caches_keys_put_all split: sum.splits)

lemma caches_keys_add_cdn_files: "caches_keys (add_cdn_files net st) = caches_keys st"
proof -
  have "caches_keys (fold (add_swallowed net CACHE_NAME) us st) = caches_keys st" for us
    by (induction us arbitrary: st) (simp_all add: add_swallowed_def cache_add_def caches_keys_addAll)
  then show ?thesis by (simp add: add_cdn_files_def)
qed

lemma caches_keys_install:
  "caches_keys (snd (install net st)) = caches_keys (caches_open CACHE_NAME st)"
proof -
  obtain res st1 where a: "cache_addAll net CACHE_NAME STATIC_CACHE_FILES (caches_open CACHE_NAME st) = (res, st1)"
    by (cases "cache_addAll net CACHE_NAME STATIC_CACHE_FILES (caches_open CACHE_NAME st)")
  have k: "caches_keys st1 = caches_keys (caches_open CACHE_NAME st)"
    using caches_keys_addAll [of net CACHE_NAME STATIC_CACHE_FILES "caches_open CACHE_NAME st"] a by simp
  show ?thesis
    using a k by (cases res) (auto simp: install_def caches_keys_add_cdn_files caches_keys_open)
qed

lemma install_then_activate:
  assumes "distinct (caches_keys st)"
  shows "caches_keys (activate (snd (install net st))) = [CACHE_NAME]"
proof -
  have "distinct (caches_keys (snd (install net st)))"
    and "CACHE_NAME \<in> set (caches_keys (snd (install net st)))"
    using assms by (auto simp: caches_keys_install caches_keys_open)
  then show ?thesis by (simp add: caches_keys_activate filter_eq_distinct)
qed

section \<open>Properties of the statistics manager\<close>

subsection \<open>Integers up to \<open>2 ^ 53\<close> are Numbers\<close>

lemma round_half_even_of_int: "round_half_even (of_int j) = j"
  by (simp add: round_half_even_def)

lemma fl_0: "fl 0 = Finite 0"
  by (simp add: fl_def)

lemma expo_of_int: "1 \<le> m \<Longrightarrow> expo (of_int m) = bitlen m - 1"
  by (simp add: expo_def)

lemma fl_Finite:
  assumes "x \<noteq> 0"
    and "of_int (round_half_even (\<bar>x\<bar> / power_int 2 (max (expo x) (- 1022) - 52)))
           * power_int 2 (max (expo x) (- 1022) - 52) = y"
    and "y < power_int 2 1024"
  shows "fl x = Finite (sgn x * y)"
  using assms by (simp add: fl_def Let_def)

lemma fl_of_int:
  assumes "0 \<le> m" and "m \<le> 2 ^ 53"
  shows "fl (of_int m) = Finite (of_int m)"
proof (cases "m = 0")
  case True
  then show ?thesis by (simp add: fl_0)
next
  case False
  with assms have m: "1 \<le> m" by simp
  define b where "b = bitlen m"
  have lo: "2 ^ nat (b - 1) \<le> m" and b1: "1 \<le> b"
    using bitlen_bounds [of m] m bitlen_eq_zero_iff [of m] bitlen_nonneg [of m]
    by (auto simp: b_def)
  have "(2::int) ^ nat (b - 1) \<le> 2 ^ 53" using lo assms(2) by linarith
  then have "nat (b - 1) \<le> 53"
    by (rule power_le_imp_le_exp [rotated]) simp
  then have b54: "b \<le> 54" by simp
  define q :: rat where "q = power_int 2 (max (expo (of_int m)) (- 1022) - 52)"
  have q: "q = power_int 2 (b - 53)"
    using b1 m by (simp add: q_def expo_of_int b_def)
  have qpos: "0 < q" by (simp add: q)
  have "\<exists>j. of_int m / q = of_int j"
  proof (cases "b \<le> 53")
    case True
    then have "q = 1 / 2 ^ nat (53 - b)"
      by (simp add: q power_int_def power_one_over)
    then have "of_int m / q = of_int (m * 2 ^ nat (53 - b))" by simp
    then show ?thesis by blast
  next
    case False
    with b54 have b: "b = 54" by simp
    with lo have "2 ^ 53 \<le> m" by simp
    with assms(2) have "m = 2 ^ 53" by simp
    then have "of_int m / q = of_int (2 ^ 52)" by (simp add: q b)
    then show ?thesis by blast
  qed
  then obtain j where j: "of_int m / q = of_int j" by blast
  then have jq: "of_int j * q = of_int m" using qpos by (simp add: field_simps)
  have small: "(of_int m :: rat) < power_int 2 1024"
  proof -
    have "(of_int m :: rat) \<le> of_int (2 ^ 53)" using assms(2) by (simp only: of_int_le_iff)
    also have "\<dots> < power_int 2 1024" by simp
    finally show ?thesis .
  qed
  have abs_m: "\<bar>of_int m :: rat\<bar> = of_int m" and sgn_m: "sgn (of_int m :: rat) = 1"
    and nz: "(of_int m :: rat) \<noteq> 0"
    using m by simp_all
  have "of_int (round_half_even (\<bar>of_int m\<bar> / q)) * q = (of_int m :: rat)"
    by (simp only: abs_m j round_half_even_of_int jq)
  from fl_Finite [OF nz this [unfolded q_def] small] show ?thesis
    by (simp only: sgn_m mult_1)
qed

lemma num_add_one:
  assumes "0 \<le> n" and "n < 2 ^ 53"
  shows "num_add (Finite (of_int n)) (Finite 1) = Finite (of_int (n + 1))"
proof -
  have "fl (of_int (n + 1)) = Finite (of_int (n + 1))"
    using assms by (intro fl_of_int) simp_all
  then show ?thesis by simp
qed

lemma floor_half: "\<lfloor>(1 :: rat) / 2\<rfloor> = 0"
  by (simp add: floor_eq_iff)

lemma getStats_zero:
  "getStats \<lparr>totalPredictions = Finite 0, totalConfidence = Finite 0,
      averageConfidence = Finite 0\<rparr> = \<lparr>total = Finite 0, average = Finite 0\<rparr>"
  by (simp add: getStats_def fl_0 floor_half)

subsection \<open>What \<^verbatim>\<open>addPrediction\<close> and \<^verbatim>\<open>reset\<close> return\<close>

text \<open>
  C10, as the code has it. For every confidence \<open>c\<close> and every prior state whose count is
  an integer \<open>n\<close> with \<open>0 \<le> n < 2 ^ 53\<close> and whose sum is \<open>s\<close>, \<^verbatim>\<open>addPrediction(c)\<close>
  returns the total \<open>n + 1\<close>, and the average it returns is computed from \<open>s\<close>, \<open>c\<close> and
  \<open>n + 1\<close> in binary64 arithmetic: the sum, the quotient, the product by 10 and the
  final quotient by 10 are each rounded to the nearest Number, and \<^verbatim>\<open>Math.round\<close> is
  applied to the rounded product. \<^verbatim>\<open>reset\<close> returns total 0 and average 0 from every
  state.
\<close>

theorem addPrediction_in_double_arithmetic:
  assumes "0 \<le> n" and "n < 2 ^ 53"
  shows "total (fst (addPrediction c \<lparr>totalPredictions = Finite (of_int n),
            totalConfidence = s, averageConfidence = a\<rparr>)) = Finite (of_int (n + 1))
       \<and> average (fst (addPrediction c \<lparr>totalPredictions = Finite (of_int n),
            totalConfidence = s, averageConfidence = a\<rparr>))
           = num_div (Math_round (num_mul
               (num_div (num_add s c) (Finite (of_int (n + 1)))) (Finite 10))) (Finite 10)
       \<and> fst (reset st) = \<lparr>total = Finite 0, average = Finite 0\<rparr>"
proof -
  have "fst (reset st) = \<lparr>total = Finite 0, average = Finite 0\<rparr>"
    by (simp add: reset_def Let_def getStats_def fl_0 floor_half)
  then show ?thesis
    using num_add_one [OF assms]
    by (simp add: addPrediction_def getStats_def Let_def)
qed

theorem addPrediction_in_double_arithmetic_witness:
  "(0::int) \<le> 1 \<and> (1::int) < 2 ^ 53
   \<and> total (fst (addPrediction (Finite (21 / 2)) \<lparr>totalPredictions = Finite 1,
        totalConfidence = Finite 10, averageConfidence = Finite 10\<rparr>)) = Finite 2
   \<and> average (fst (addPrediction (Finite (21 / 2)) \<lparr>totalPredictions = Finite 1,
        totalConfidence = Finite 10, averageConfidence = Finite 10\<rparr>))
       = Finite (2899192260119757 / 281474976710656)
   \<and> fst (reset \<lparr>totalPredictions = Finite 7, totalConfidence = NaN,
        averageConfidence = PosInfinity\<rparr>) = \<lparr>total = Finite 0, average = Finite 0\<rparr>"
proof -
  have avg: "num_div (Math_round (num_mul
      (num_div (fl (41 / 2)) (Finite 2)) (Finite 10))) (Finite 10)
      = Finite (2899192260119757 / 281474976710656)"
    by code_simp
  show ?thesis
    using addPrediction_in_double_arithmetic [of 1 "Finite (21 / 2)" "Finite 10" "Finite 10"
      "\<lparr>totalPredictions = Finite 7, totalConfidence = NaN, averageConfidence = PosInfinity\<rparr>"]
    by (simp add: avg)
qed

text \<open>
  C10 as the specification words it fails. After \<^verbatim>\<open>addPrediction(10)\<close> on fresh
  statistics (count 1, sum 10), \<^verbatim>\<open>addPrediction(10.1)\<close> returns the average 10.1: the
  literal 10.1 is the Number \<open>5685794529555251 / 2 ^ 49\<close>, the exact average
  \<open>(10 + 10.1) / 2\<close> of the stored Numbers lies below 10.05 and rounds to 10.0 to one
  decimal place, but the sum is rounded up on the way. And for the count \<open>2 ^ 53\<close> the
  returned total is \<open>2 ^ 53\<close>, not \<open>2 ^ 53 + 1\<close>.
\<close>

theorem addPrediction_exact_average_counterexample:
  "fl (101 / 10) = Finite (5685794529555251 / 562949953421312)
   \<and> average (fst (addPrediction (Finite (5685794529555251 / 562949953421312))
        \<lparr>totalPredictions = Finite 1, totalConfidence = Finite 10,
         averageConfidence = Finite 10\<rparr>))
       = Finite (5685794529555251 / 562949953421312)
   \<and> of_int \<lfloor>((10 :: rat) + 5685794529555251 / 562949953421312) / (1 + 1) * 10 + 1 / 2\<rfloor> / 10
       = (10 :: rat)
   \<and> \<bar>((10 :: rat) + 5685794529555251 / 562949953421312) / (1 + 1) - 10\<bar> < 1 / 20
   \<and> average (fst (addPrediction (Finite (5685794529555251 / 562949953421312))
        \<lparr>totalPredictions = Finite 1, totalConfidence = Finite 10,
         averageConfidence = Finite 10\<rparr>))
       \<noteq> Finite (of_int \<lfloor>((10 :: rat) + 5685794529555251 / 562949953421312) / (1 + 1) * 10
                          + 1 / 2\<rfloor> / 10)
   \<and> total (fst (addPrediction (Finite 1)
        \<lparr>totalPredictions = Finite (2 ^ 53), totalConfidence = Finite 0,
         averageConfidence = Finite 0\<rparr>))
       = Finite (2 ^ 53)
   \<and> total (fst (addPrediction (Finite 1)
        \<lparr>totalPredictions = Finite (2 ^ 53), totalConfidence = Finite 0,
         averageConfidence = Finite 0\<rparr>))
       \<noteq> Finite (2 ^ 53 + 1)"
proof -
  have literal: "fl (101 / 10) = Finite (5685794529555251 / 562949953421312)"
    by code_simp
  have code: "average (fst (addPrediction (Finite (5685794529555251 / 562949953421312))
        \<lparr>totalPredictions = Finite 1, totalConfidence = Finite 10,
         averageConfidence = Finite 10\<rparr>))
       = Finite (5685794529555251 / 562949953421312)"
    by code_simp
  have exact: "of_int \<lfloor>((10 :: rat) + 5685794529555251 / 562949953421312) / (1 + 1) * 10
        + 1 / 2\<rfloor> / 10 = (10 :: rat)"
    by (simp add: floor_eq_iff)
  have near: "\<bar>((10 :: rat) + 5685794529555251 / 562949953421312) / (1 + 1) - 10\<bar> < 1 / 20"
    by simp
  have count: "total (fst (addPrediction (Finite 1)
        \<lparr>totalPredictions = Finite (2 ^ 53), totalConfidence = Finite 0,
         averageConfidence = Finite 0\<rparr>))
       = Finite (2 ^ 53)"
    by code_simp
  have differ: "Finite (5685794529555251 / 562949953421312) \<noteq> Finite 10"
    and differ': "Finite (2 ^ 53) \<noteq> Finite (2 ^ 53 + 1)"
    by simp_all
  show ?thesis
    unfolding code count exact
    using literal near differ differ' by (intro conjI) (rule refl | assumption)+
qed

section \<open>Properties of the model manager\<close>

lemma init_until_await_isLoaded:
  "isLoaded (snd (init_until_await tf s)) = isLoaded s"
  by (simp add: init_until_await_def split: sum.splits)

lemma init_rejected_isLoaded:
  "\<not> init_fulfils tf s \<Longrightarrow> isLoaded (snd (ModelManager_init tf s)) = isLoaded s"
  by (auto simp: init_fulfils_def ModelManager_init_def init_until_await_def split: sum.splits)

lemma init_fulfils_loaded:
  "init_fulfils tf s \<Longrightarrow>
   isLoaded (snd (ModelManager_init tf s)) \<and> model (snd (ModelManager_init tf s)) \<noteq> None"
  by (auto simp: init_fulfils_def ModelManager_init_def init_until_await_def split: sum.splits)

lemma init_keeps_loaded:
  "isLoaded s \<and> model s \<noteq> None \<Longrightarrow>
   isLoaded (snd (ModelManager_init tf s)) \<and> model (snd (ModelManager_init tf s)) \<noteq> None"
  by (auto simp: ModelManager_init_def init_until_await_def split: sum.splits)

lemma init_calls_run_keeps_loaded:
  "isLoaded s \<and> model s \<noteq> None \<Longrightarrow>
   isLoaded (init_calls_run tfs s) \<and> model (init_calls_run tfs s) \<noteq> None"
proof (induction tfs arbitrary: s)
  case Nil
  then show ?case by simp
next
  case (Cons tf tfs)
  from init_keeps_loaded [OF Cons.prems, of tf]
  show ?case using Cons.IH by simp
qed

lemma none_fulfils_not_loaded:
  "none_fulfils tfs s \<Longrightarrow> \<not> isLoaded s \<Longrightarrow> \<not> isLoaded (init_calls_run tfs s)"
proof (induction tfs arbitrary: s)
  case Nil
  then show ?case by simp
next
  case (Cons tf tfs)
  then show ?case by (simp add: init_rejected_isLoaded)
qed

lemma predict_not_loaded:
  "\<not> isLoaded s \<Longrightarrow> predict infer s imageData = Inl (Error ''Model not loaded'')"
  by (simp add: predict_def)

lemma predict_loaded:
  "isLoaded s \<Longrightarrow> model s = Some m \<Longrightarrow> predict infer s imageData = infer m imageData"
  by (simp add: predict_def)

text \<open>
  C9. As long as no call of \<^verbatim>\<open>init\<close> has fulfilled, \<^verbatim>\<open>predict\<close> rejects with the error
  "Model not loaded" for every image, without running the model; this also holds while a
  call of \<^verbatim>\<open>init\<close> is suspended at its \<^verbatim>\<open>await\<close>. Once a call of \<^verbatim>\<open>init\<close> has
  fulfilled, \<^verbatim>\<open>predict\<close> passes the guard, also after later calls of \<^verbatim>\<open>init\<close>: its
  result is that of the inference pipeline on the stored model.
\<close>

theorem predict_guard:
  "(none_fulfils tfs model_manager_initial \<longrightarrow>
      predict infer (init_calls_run tfs model_manager_initial) imageData
        = Inl (Error ''Model not loaded'')
      \<and> predict infer (snd (init_until_await pending (init_calls_run tfs model_manager_initial))) imageData
        = Inl (Error ''Model not loaded''))
   \<and> (init_fulfils tf s \<longrightarrow>
        (\<exists>m. model (init_calls_run later (snd (ModelManager_init tf s))) = Some m
           \<and> predict infer (init_calls_run later (snd (ModelManager_init tf s))) imageData
               = infer m imageData))"
proof -
  have before: "\<not> isLoaded (init_calls_run tfs model_manager_initial)"
    if "none_fulfils tfs (model_manager_initial :: 'a model_manager)"
    using none_fulfils_not_loaded [OF that] by (simp add: model_manager_initial_def)
  have after: "\<exists>m. model (init_calls_run later (snd (ModelManager_init tf s))) = Some m
           \<and> predict infer (init_calls_run later (snd (ModelManager_init tf s))) imageData
               = infer m imageData" if "init_fulfils tf s"
  proof -
    from init_calls_run_keeps_loaded [OF init_fulfils_loaded [OF that], of later]
    obtain m where "isLoaded (init_calls_run later (snd (ModelManager_init tf s)))"
      and "model (init_calls_run later (snd (ModelManager_init tf s))) = Some m" by auto
    then show ?thesis by (simp add: predict_loaded)
  qed
  show ?thesis
    using before after by (simp add: predict_not_loaded init_until_await_isLoaded)
qed

theorem predict_guard_witness:
  "predict (\<lambda>m i. Inr (m + i))
       (init_calls_run [\<lparr>sequential = Inl (Error ''tf is not defined''), compile = Inr (),
            loadWeights = Inr ()\<rparr>,
          \<lparr>sequential = Inr 7, compile = Inl (Error ''compile''), loadWeights = Inr ()\<rparr>]
          model_manager_initial) (1::nat)
     = (Inl (Error ''Model not loaded'') :: js_error + nat)
   \<and> predict (\<lambda>m i. Inr (m + i))
       (snd (ModelManager_init
          \<lparr>sequential = Inr 7, compile = Inr (), loadWeights = Inl (Error ''no weights'')\<rparr>
          model_manager_initial)) (1::nat)
     = (Inr 8 :: js_error + nat)"
proof -
  let ?f1 = "\<lparr>sequential = Inl (Error ''tf is not defined''), compile = Inr (),
      loadWeights = Inr ()\<rparr> :: nat tf_run"
  let ?f2 = "\<lparr>sequential = Inr 7, compile = Inl (Error ''compile''), loadWeights = Inr ()\<rparr>
      :: nat tf_run"
  let ?g = "\<lparr>sequential = Inr 7, compile = Inr (), loadWeights = Inl (Error ''no weights'')\<rparr>
      :: nat tf_run"
  let ?infer = "\<lambda>m i. Inr (m + i) :: js_error + nat"
  have n: "none_fulfils [?f1, ?f2] model_manager_initial"
    by (simp add: init_fulfils_def ModelManager_init_def init_until_await_def)
  have g: "init_fulfils ?g model_manager_initial"
    by (simp add: init_fulfils_def ModelManager_init_def init_until_await_def)
  have m: "model (snd (ModelManager_init ?g model_manager_initial)) = Some 7"
    by (simp add: ModelManager_init_def init_until_await_def)
  from predict_guard [of "[?f1, ?f2]" ?infer 1 ?g ?g model_manager_initial "[]"] n g
  have a: "predict ?infer (init_calls_run [?f1, ?f2] model_manager_initial) 1
      = Inl (Error ''Model not loaded'')"
    and "\<exists>m. model (init_calls_run [] (snd (ModelManager_init ?g model_manager_initial))) = Some m
      \<and> predict ?infer (init_calls_run [] (snd (ModelManager_init ?g model_manager_initial))) 1
          = ?infer m 1"
    by blast+
  then have "predict ?infer (snd (ModelManager_init ?g model_manager_initial)) 1 = Inr 8"
    using m by auto
  with a show ?thesis by simp
qed

section \<open>Properties of the bootstrap\<close>

lemma sleep_args_append: "sleep_args (es @ fs) = sleep_args es @ sleep_args fs"
  by (induction es rule: sleep_args.induct) simp_all

text \<open>The three ways one call of \<^verbatim>\<open>loadModel\<close> continues.\<close>

lemma loadModel_loaded:
  "model_init_ok env (init_calls s) \<Longrightarrow>
   loadModel env s =
     initializeApp env
       (s\<lparr>loadingStatus := Loading_AI_Model, trace := trace s @ [ModelManager_init_called],
          modelLoaded := True\<rparr>)"
  by (subst loadModel.simps)
     (simp add: Let_def updateLoadingStatus_def log_call_def init_calls_def)

lemma loadModel_retry:
  "\<not> model_init_ok env (init_calls s) \<Longrightarrow> currentAttempt s < MAX_ATTEMPTS \<Longrightarrow>
   loadModel env s =
     loadModel env
       (s\<lparr>currentAttempt := currentAttempt s + 1,
          loadingStatus := Retrying (currentAttempt s + 1) MAX_ATTEMPTS,
          trace := trace s @ [ModelManager_init_called,
                     sleep_called (backoff_delay (currentAttempt s + 1))]\<rparr>)"
  by (subst loadModel.simps)
     (simp add: Let_def updateLoadingStatus_def sleep_def log_call_def init_calls_def)

lemma loadModel_exhausted:
  "\<not> model_init_ok env (init_calls s) \<Longrightarrow> \<not> currentAttempt s < MAX_ATTEMPTS \<Longrightarrow>
   loadModel env s =
     showError (s\<lparr>loadingStatus := Loading_AI_Model,
                  trace := trace s @ [ModelManager_init_called]\<rparr>)"
  by (subst loadModel.simps)
     (simp add: Let_def updateLoadingStatus_def log_call_def init_calls_def)

lemma backoff_delay_2: "backoff_delay 2 = 1000"
  by (simp add: backoff_delay_def)

lemma backoff_delay_3: "backoff_delay 3 = 2000"
  by (simp add: backoff_delay_def)

text \<open>
  C1. When \<^verbatim>\<open>ModelManager.init()\<close> rejects on each of its first three calls, a
  bootstrap run does exactly this, in this order: call it, sleep 1000 ms, call it, sleep
  2000 ms, call it, show the error screen. So there are exactly three calls, the sleep
  before call \<open>k\<close> lasts \<open>2 ^ (k - 2)\<close> seconds, and after the third failure nothing
  follows but \<^verbatim>\<open>showError()\<close>: no fourth call and no third sleep.
\<close>

theorem three_failures_then_Failed:
  assumes "\<forall>k<3. \<not> model_init_ok env k"
  shows "trace (loadModel env app_initial)
           = [ModelManager_init_called, sleep_called 1000,
              ModelManager_init_called, sleep_called 2000,
              ModelManager_init_called, showError_called]
       \<and> init_calls (loadModel env app_initial) = 3
       \<and> sleeps (loadModel env app_initial) = [1000, 2000]
       \<and> sleeps (loadModel env app_initial) = map (\<lambda>k. 2 ^ (k - 2) * 1000) [2..<4]
       \<and> Failed (loadModel env app_initial)
       \<and> currentAttempt (loadModel env app_initial) = 3"
proof -
  have f0: "\<not> model_init_ok env 0" and f1: "\<not> model_init_ok env (Suc 0)"
    and f2: "\<not> model_init_ok env (Suc (Suc 0))"
    using assms by simp_all
  define s1 where "s1 = app_initial\<lparr>currentAttempt := 2,
      loadingStatus := Retrying 2 MAX_ATTEMPTS,
      trace := [ModelManager_init_called, sleep_called 1000]\<rparr>"
  define s2 where "s2 = s1\<lparr>currentAttempt := 3,
      loadingStatus := Retrying 3 MAX_ATTEMPTS,
      trace := [ModelManager_init_called, sleep_called 1000,
                ModelManager_init_called, sleep_called 2000]\<rparr>"
  have a: "loadModel env app_initial = loadModel env s1"
    using f0 by (subst loadModel_retry)
      (simp_all add: app_initial_def MAX_ATTEMPTS_def s1_def backoff_delay_2 init_calls_def)
  have b: "loadModel env s1 = loadModel env s2"
    using f1 by (subst loadModel_retry)
      (simp_all add: app_initial_def MAX_ATTEMPTS_def s1_def s2_def backoff_delay_3
         init_calls_def)
  have c: "loadModel env s2 =
      showError (s2\<lparr>loadingStatus := Loading_AI_Model,
        trace := [ModelManager_init_called, sleep_called 1000,
                  ModelManager_init_called, sleep_called 2000,
                  ModelManager_init_called]\<rparr>)"
    using f2 by (subst loadModel_exhausted)
      (simp_all add: app_initial_def MAX_ATTEMPTS_def s1_def s2_def init_calls_def)
  have m: "map (\<lambda>k. 2 ^ (k - 2) * 1000) [2..<4] = [1000, 2000::rat]"
    by (simp add: upt_rec numeral_eq_Suc)
  show ?thesis
    unfolding a b c m
    by (simp add: showError_def log_call_def Failed_def init_calls_def sleeps_def s2_def s1_def
        app_initial_def)
qed

theorem three_failures_then_Failed_witness:
  "trace (loadModel \<lparr>model_init_ok = \<lambda>k. False, canvas_init_ok = True,
        ui_init_ok = True, stats_init_ok = True\<rparr> app_initial)
     = [ModelManager_init_called, sleep_called 1000,
        ModelManager_init_called, sleep_called 2000,
        ModelManager_init_called, showError_called]
   \<and> init_calls (loadModel \<lparr>model_init_ok = \<lambda>k. False, canvas_init_ok = True,
        ui_init_ok = True, stats_init_ok = True\<rparr> app_initial) = 3
   \<and> sleeps (loadModel \<lparr>model_init_ok = \<lambda>k. False, canvas_init_ok = True,
        ui_init_ok = True, stats_init_ok = True\<rparr> app_initial) = [1000, 2000]
   \<and> Failed (loadModel \<lparr>model_init_ok = \<lambda>k. False, canvas_init_ok = True,
        ui_init_ok = True, stats_init_ok = True\<rparr> app_initial)"
  using three_failures_then_Failed [of "\<lparr>model_init_ok = \<lambda>k. False, canvas_init_ok = True,
        ui_init_ok = True, stats_init_ok = True\<rparr>"]
  by simp

text \<open>
  C8. When \<^verbatim>\<open>ModelManager.init()\<close> fulfils and one of \<^verbatim>\<open>CanvasManager.init()\<close>,
  \<^verbatim>\<open>UIManager.init()\<close>, \<^verbatim>\<open>StatsManager.init()\<close> throws, \<^verbatim>\<open>loadModel\<close> ends with the
  error screen shown, having made that one call and then called \<^verbatim>\<open>showError()\<close>: no
  sleep, no further call, the attempt counter unchanged, whatever it was.
\<close>

theorem secondary_failure_bypasses_retry:
  assumes "model_init_ok env (init_calls s)"
    and "\<not> (canvas_init_ok env \<and> ui_init_ok env \<and> stats_init_ok env)"
  shows "Failed (loadModel env s)
       \<and> init_calls (loadModel env s) = Suc (init_calls s)
       \<and> sleeps (loadModel env s) = sleeps s
       \<and> currentAttempt (loadModel env s) = currentAttempt s
       \<and> appContainer_shown (loadModel env s) = appContainer_shown s
       \<and> trace (loadModel env s) = trace s @ [ModelManager_init_called, showError_called]"
  using assms
  by (auto simp: loadModel_loaded initializeApp_def showError_def log_call_def Failed_def
      init_calls_def sleeps_def sleep_args_append)

theorem secondary_failure_bypasses_retry_witness:
  "model_init_ok \<lparr>model_init_ok = \<lambda>k. True, canvas_init_ok = True, ui_init_ok = False,
       stats_init_ok = True\<rparr> (init_calls app_initial)
   \<and> \<not> (canvas_init_ok \<lparr>model_init_ok = \<lambda>k. True, canvas_init_ok = True, ui_init_ok = False,
       stats_init_ok = True\<rparr> \<and> ui_init_ok \<lparr>model_init_ok = \<lambda>k. True, canvas_init_ok = True, ui_init_ok = False,
       stats_init_ok = True\<rparr> \<and> stats_init_ok \<lparr>model_init_ok = \<lambda>k. True, canvas_init_ok = True, ui_init_ok = False,
       stats_init_ok = True\<rparr>)
   \<and> Failed (loadModel \<lparr>model_init_ok = \<lambda>k. True, canvas_init_ok = True, ui_init_ok = False,
       stats_init_ok = True\<rparr> app_initial)
   \<and> init_calls (loadModel \<lparr>model_init_ok = \<lambda>k. True, canvas_init_ok = True, ui_init_ok = False,
       stats_init_ok = True\<rparr> app_initial) = 1
   \<and> sleeps (loadModel \<lparr>model_init_ok = \<lambda>k. True, canvas_init_ok = True, ui_init_ok = False,
       stats_init_ok = True\<rparr> app_initial) = []
   \<and> currentAttempt (loadModel \<lparr>model_init_ok = \<lambda>k. True, canvas_init_ok = True, ui_init_ok = False,
       stats_init_ok = True\<rparr> app_initial) = 1
   \<and> trace (loadModel \<lparr>model_init_ok = \<lambda>k. True, canvas_init_ok = True, ui_init_ok = False,
       stats_init_ok = True\<rparr> app_initial) = [ModelManager_init_called, showError_called]"
  using secondary_failure_bypasses_retry [of "\<lparr>model_init_ok = \<lambda>k. True, canvas_init_ok = True,
       ui_init_ok = False, stats_init_ok = True\<rparr>" app_initial]
  by (simp add: app_initial_def init_calls_def sleeps_def)

end
